theory Spec2Isabelle
  imports Main
begin

section \<open>Go values used by main.go\<close>

text \<open>
  A Go \<open>string\<close> is a sequence of bytes, here \<open>string\<close> (a list of 8-bit \<open>char\<close>s).
  The Chinese messages of main.go are written as their UTF-8 bytes.  Go's \<open>int\<close> and
  \<open>int64\<close> are 64-bit two's-complement integers (the server loads Everything64.dll, a
  64-bit build); they are modelled as \<open>int\<close> with the wrap-around of each arithmetic
  result written out by \<open>int64\<close>.
\<close>

definition int64 :: "int \<Rightarrow> int" where
  "int64 x = signed_take_bit 63 x"

text \<open>Go's integer division truncates towards zero.\<close>

definition quo :: "int \<Rightarrow> int \<Rightarrow> int" where
  "quo a b = sgn a * sgn b * (\<bar>a\<bar> div \<bar>b\<bar>)"

subsection \<open>package strings\<close>

definition HasPrefix :: "string \<Rightarrow> string \<Rightarrow> bool" where
  "HasPrefix s p = (take (length p) s = p)"

text \<open>\<open>strings.Split(s, sep)\<close> for a separator of one byte: the pieces between the
  occurrences of the separator, one more piece than there are separators.\<close>

fun Split :: "string \<Rightarrow> char \<Rightarrow> string list" where
  "Split [] sep = [[]]"
| "Split (c # cs) sep =
     (if c = sep then [] # Split cs sep
      else (case Split cs sep of
              [] \<Rightarrow> [[c]]
            | p # ps \<Rightarrow> (c # p) # ps))"

text \<open>\<open>strings.ReplaceAll(s, old, new)\<close> for one-byte \<open>old\<close> and \<open>new\<close>.\<close>

definition ReplaceAll :: "string \<Rightarrow> char \<Rightarrow> char \<Rightarrow> string" where
  "ReplaceAll s old new = map (\<lambda>c. if c = old then new else c) s"

subsection \<open>package strconv\<close>

definition is_digit :: "char \<Rightarrow> bool" where
  "is_digit c = (48 \<le> (of_char c :: nat) \<and> (of_char c :: nat) \<le> 57)"

definition digit_val :: "char \<Rightarrow> nat" where
  "digit_val c = of_char c - 48"

definition digits_val :: "string \<Rightarrow> nat" where
  "digits_val ds = foldl (\<lambda>n c. 10 * n + digit_val c) 0 ds"

text \<open>
  \<open>strconv.ParseInt(s, 10, 64)\<close>: an optional sign, then one or more decimal digits and
  nothing else; a value outside \<open>[-2^63, 2^63 - 1]\<close> is a range error.  main.go only tests
  \<open>err != nil\<close>, so every error is \<open>None\<close>.  \<open>strconv.Atoi\<close> is the same function on a
  64-bit platform.
\<close>

definition ParseInt :: "string \<Rightarrow> int option" where
  "ParseInt s =
     (case s of
        [] \<Rightarrow> None
      | c # r \<Rightarrow>
          (let neg = (c = CHR ''-'');
               ds = (if c = CHR ''+'' \<or> c = CHR ''-'' then r else s)
           in if ds = [] \<or> \<not> list_all is_digit ds then None
              else (let un = digits_val ds
                    in if \<not> neg \<and> un \<ge> 2 ^ 63 then None
                       else if neg \<and> un > 2 ^ 63 then None
                       else Some (if neg then - int un else int un))))"

definition Atoi :: "string \<Rightarrow> int option" where
  "Atoi s = ParseInt s"

definition digit_char :: "nat \<Rightarrow> char" where
  "digit_char d = ''0123456789'' ! d"

fun FormatNat :: "nat \<Rightarrow> string" where
  "FormatNat n =
     (if n < 10 then [digit_char n]
      else FormatNat (n div 10) @ [digit_char (n mod 10)])"

text \<open>\<open>strconv.FormatInt(n, 10)\<close>, which is also what \<open>%d\<close> prints.\<close>

definition FormatInt :: "int \<Rightarrow> string" where
  "FormatInt n = (if n < 0 then CHR ''-'' # FormatNat (nat (- n)) else FormatNat (nat n))"

subsection \<open>package net/http: the response writer\<close>

text \<open>
  What a handler leaves in its \<open>http.ResponseWriter\<close>: the header map, the status code
  (200 unless \<open>WriteHeader\<close> is called before the first write) and the bytes written to
  the body.  The client is taken to accept every write.
\<close>

record ResponseWriter =
  header :: "string \<rightharpoonup> string"
  wroteHeader :: bool
  status :: nat
  body :: string

definition NewResponseWriter :: ResponseWriter where
  "NewResponseWriter = \<lparr>header = Map.empty, wroteHeader = False, status = 200, body = []\<rparr>"

definition Header_Set :: "string \<Rightarrow> string \<Rightarrow> ResponseWriter \<Rightarrow> ResponseWriter" where
  "Header_Set k v w = w\<lparr>header := (header w)(k \<mapsto> v)\<rparr>"

definition Header_Del :: "string \<Rightarrow> ResponseWriter \<Rightarrow> ResponseWriter" where
  "Header_Del k w = w\<lparr>header := (header w)(k := None)\<rparr>"

definition WriteHeader :: "nat \<Rightarrow> ResponseWriter \<Rightarrow> ResponseWriter" where
  "WriteHeader code w = (if wroteHeader w then w else w\<lparr>wroteHeader := True, status := code\<rparr>)"

definition Write :: "string \<Rightarrow> ResponseWriter \<Rightarrow> ResponseWriter" where
  "Write bs w = (let w' = WriteHeader 200 w in w'\<lparr>body := body w' @ bs\<rparr>)"

text \<open>\<open>http.Error(w, error, code)\<close>: a plain-text reply whose body is the message and a
  newline.\<close>

definition Error :: "ResponseWriter \<Rightarrow> string \<Rightarrow> nat \<Rightarrow> ResponseWriter" where
  "Error w msg code =
     Write (msg @ [CHR 0x0A])
       (WriteHeader code
         (Header_Set ''X-Content-Type-Options'' ''nosniff''
           (Header_Set ''Content-Type'' ''text/plain; charset=utf-8''
             (Header_Del ''Content-Length'' w))))"

text \<open>\<open>io.CopyN(w, file, n)\<close> after \<open>file.Seek(start, 0)\<close>: the reader holds the bytes of
  the file from offset \<open>start\<close> on; at most \<open>n\<close> of them are copied, fewer when the file
  ends first, none when \<open>n \<le> 0\<close>.\<close>

definition CopyN :: "ResponseWriter \<Rightarrow> string \<Rightarrow> int \<Rightarrow> ResponseWriter" where
  "CopyN w src n = (let bs = take (nat n) src in if bs = [] then w else Write bs w)"

section \<open>serveRange (main.go, lines 2478-2544)\<close>

text \<open>The message \<open>"\<dots>Range\<dots>"\<close> (invalid Range header) of every 416 reply.\<close>

definition invalid_range_msg :: string where
  "invalid_range_msg =
     [CHR 0xE6, CHR 0x97, CHR 0xA0, CHR 0xE6, CHR 0x95, CHR 0x88, CHR 0xE7, CHR 0x9A, CHR 0x84]
       @ ''Range'' @ [CHR 0xE5, CHR 0xA4, CHR 0xB4]"

text \<open>
  \<open>rangeHeader\<close> is \<open>r.Header.Get("Range")\<close>, \<open>file\<close> the bytes of the open file, read from
  its beginning.  \<open>start\<close> keeps its zero value when the first part is empty.
\<close>

definition serveRange ::
  "ResponseWriter \<Rightarrow> string \<Rightarrow> string \<Rightarrow> int \<Rightarrow> string \<Rightarrow> ResponseWriter" where
  "serveRange w rangeHeader file fileSize contentType =
     (if \<not> HasPrefix rangeHeader ''bytes='' then Error w invalid_range_msg 416
      else
        (let rangeSpec = drop 6 rangeHeader;
             rangeParts = Split rangeSpec (CHR ''-'')
         in if length rangeParts \<noteq> 2 then Error w invalid_range_msg 416
            else
              (case (if rangeParts ! 0 \<noteq> [] then ParseInt (rangeParts ! 0) else Some 0) of
                 None \<Rightarrow> Error w invalid_range_msg 416
               | Some start \<Rightarrow>
                   (case (if rangeParts ! 1 \<noteq> [] then ParseInt (rangeParts ! 1)
                          else Some (int64 (fileSize - 1))) of
                      None \<Rightarrow> Error w invalid_range_msg 416
                    | Some end' \<Rightarrow>
                        if start > end' \<or> start \<ge> fileSize then Error w invalid_range_msg 416
                        else
                          (let contentLength = int64 (end' - start + 1);
                               w1 = Header_Set ''Content-Type'' contentType w;
                               w2 = Header_Set ''Content-Range''
                                      (''bytes '' @ FormatInt start @ ''-'' @ FormatInt end'
                                         @ ''/'' @ FormatInt fileSize) w1;
                               w3 = Header_Set ''Content-Length'' (FormatInt contentLength) w2;
                               w4 = Header_Set ''Accept-Ranges'' ''bytes'' w3;
                               w5 = WriteHeader 206 w4
                           in CopyN w5 (drop (nat start) file) contentLength)))))"

text \<open>The 1000-byte file of the examples.\<close>

definition example_file :: string where
  "example_file = replicate 1000 (CHR ''x'')"

section \<open>The search cache (main.go, lines 55-67)\<close>

text \<open>
  A \<open>time.Time\<close> is its clock reading in nanoseconds, a \<open>time.Duration\<close> a number of
  nanoseconds.  \<open>time.Since(t)\<close> is \<open>time.Now().Sub(t)\<close>, which saturates at the bounds of
  \<open>int64\<close>; \<open>now\<close> is the reading of the clock at the call.
\<close>

record SearchCache =
  Paths :: "string list"
  Timestamp :: int

type_synonym cache = "string \<rightharpoonup> SearchCache"

definition Minute :: int where
  "Minute = 60 * 1000000000"

definition cacheExpiry :: int where
  "cacheExpiry = 10 * Minute"

definition Since :: "int \<Rightarrow> int \<Rightarrow> int" where
  "Since now t = max (- (2 ^ 63)) (min (2 ^ 63 - 1) (now - t))"

definition DefaultPageSize :: int where
  "DefaultPageSize = 50"

definition MaxPageSize :: int where
  "MaxPageSize = 200"

section \<open>The world outside the process\<close>

text \<open>
  \<open>searchWithEverythingSDK\<close> and \<open>searchWithESExe\<close> (lines 158-230) ask the Everything
  DLL and the program es.exe; what they return for a query is a parameter, \<open>Inl\<close> the
  message of the error.  So are the file system (\<open>os.Stat\<close>), the functions of
  \<open>path/filepath\<close> (\<open>LowerExt\<close> is \<open>strings.ToLower(filepath.Ext(p))\<close>), and what
  happens when ffmpeg is started: whether \<open>cmd.StderrPipe\<close> and \<open>cmd.Start\<close> succeed and
  the bytes the process writes to its standard output.  \<open>info_ModTime\<close> is the
  modification time already formatted as \<open>2006-01-02 15:04:05\<close>.
\<close>

datatype stat_error = NotExist | OtherStatError

record FileInfo =
  info_Size :: int
  info_ModTime :: string
  info_IsDir :: bool

record world =
  EverythingSDK :: "string \<Rightarrow> string + string list"
  ESExe :: "string \<Rightarrow> string + string list"
  Stat :: "string \<Rightarrow> stat_error + FileInfo"
  Base :: "string \<Rightarrow> string"
  LowerExt :: "string \<Rightarrow> string"
  StderrPipe_ok :: bool
  Start_ok :: "string list \<Rightarrow> bool"
  Stdout_of :: "string list \<Rightarrow> string"

section \<open>searchFilesWithCache (main.go, lines 2162-2266)\<close>

record SearchResult =
  Name :: string
  Path :: string
  Size :: int
  Modified :: string
  Type :: string
  IsDir :: bool

datatype backend = SDK | ES

datatype error =
  SearchFailed string
| IndexOutOfRange int

text \<open>Lines 2164-2171: the entry of the query, when there is one and it is younger than
  \<open>cacheExpiry\<close>.\<close>

definition cache_lookup :: "int \<Rightarrow> cache \<Rightarrow> string \<Rightarrow> string list option" where
  "cache_lookup now searchCache query =
     (case searchCache query of
        None \<Rightarrow> None
      | Some c \<Rightarrow> if Since now (Timestamp c) < cacheExpiry then Some (Paths c) else None)"

text \<open>Lines 2197-2202: a new entry replaces the one of the query.\<close>

definition cache_store :: "int \<Rightarrow> cache \<Rightarrow> string \<Rightarrow> string list \<Rightarrow> cache" where
  "cache_store now searchCache query allPaths =
     searchCache(query \<mapsto> \<lparr>Paths = allPaths, Timestamp = now\<rparr>)"

text \<open>The message \<open>"\<dots> - SDK\<dots>: %v, es.exe\<dots>: %v"\<close> of line 2187, with its two
  arguments.\<close>

definition search_failed_msg :: "string \<Rightarrow> string \<Rightarrow> string" where
  "search_failed_msg a b =
     [CHR 0xE6, CHR 0x90, CHR 0x9C, CHR 0xE7, CHR 0xB4, CHR 0xA2, CHR 0xE5, CHR 0xA4, CHR 0xB1,
      CHR 0xE8, CHR 0xB4, CHR 0xA5] @ '' - SDK''
     @ [CHR 0xE9, CHR 0x94, CHR 0x99, CHR 0xE8, CHR 0xAF, CHR 0xAF] @ '': '' @ a
     @ '', es.exe'' @ [CHR 0xE9, CHR 0x94, CHR 0x99, CHR 0xE8, CHR 0xAF, CHR 0xAF] @ '': '' @ b"

text \<open>
  Lines 2180-2189, with the backends called, in order.  The variable \<open>err\<close> is assigned
  again by the call of \<open>searchWithESExe\<close>, and line 2187 prints \<open>err\<close> twice.
\<close>

definition locate :: "world \<Rightarrow> string \<Rightarrow> (error + string list) \<times> backend list" where
  "locate W query =
     (case EverythingSDK W query of
        Inr allPaths \<Rightarrow> (Inr allPaths, [SDK])
      | Inl err \<Rightarrow>
          (case ESExe W query of
             Inr allPaths \<Rightarrow> (Inr allPaths, [SDK, ES])
           | Inl err' \<Rightarrow> (Inl (SearchFailed (search_failed_msg err' err')), [SDK, ES])))"

text \<open>
  Lines 2164-2205: the paths of the query, whether they come from the cache, the cache
  afterwards and the backends called.  \<open>now\<close> is the clock at line 2171, \<open>now'\<close> the clock
  at line 2200.
\<close>

definition resolve_paths ::
  "world \<Rightarrow> cache \<Rightarrow> int \<Rightarrow> int \<Rightarrow> string
     \<Rightarrow> (error + string list \<times> bool) \<times> cache \<times> backend list" where
  "resolve_paths W searchCache now now' query =
     (case cache_lookup now searchCache query of
        Some allPaths \<Rightarrow> (Inr (allPaths, True), searchCache, [])
      | None \<Rightarrow>
          (case locate W query of
             (Inl e, called) \<Rightarrow> (Inl e, searchCache, called)
           | (Inr allPaths, called) \<Rightarrow>
               (Inr (allPaths, False), cache_store now' searchCache query allPaths, called)))"

text \<open>Lines 2236-2257: the record of one path that \<open>os.Stat\<close> found.\<close>

definition file_type :: "string \<Rightarrow> string" where
  "file_type ext =
     (if ext \<in> set [''.mp4'', ''.mkv'', ''.avi'', ''.mov'', ''.wmv'', ''.flv'', ''.webm''] then ''video''
      else if ext \<in> set [''.jpg'', ''.jpeg'', ''.png'', ''.gif'', ''.bmp'', ''.webp''] then ''image''
      else ''file'')"

definition make_result :: "world \<Rightarrow> string \<Rightarrow> FileInfo \<Rightarrow> SearchResult" where
  "make_result W filePath info =
     \<lparr>Name = Base W filePath, Path = filePath, Size = info_Size info,
      Modified = info_ModTime info,
      Type = (if info_IsDir info then ''folder'' else file_type (LowerExt W filePath)),
      IsDir = info_IsDir info\<rparr>"

text \<open>
  Lines 2224-2260, the loop \<open>for i := start; i < end; i++\<close>.  \<open>allPaths[i]\<close> panics when
  \<open>i\<close> is not an index of the slice; a path that \<open>os.Stat\<close> rejects is skipped.  In the
  loop \<open>i < end\<close>, so \<open>i + 1\<close> does not overflow.
\<close>

function page_loop ::
  "world \<Rightarrow> string list \<Rightarrow> int \<Rightarrow> int \<Rightarrow> SearchResult list \<Rightarrow> error + SearchResult list" where
  "page_loop W allPaths i end' results =
     (if i < end' then
        (if i < 0 \<or> int (length allPaths) \<le> i then Inl (IndexOutOfRange i)
         else
           (case Stat W (allPaths ! nat i) of
              Inl err \<Rightarrow> page_loop W allPaths (i + 1) end' results
            | Inr info \<Rightarrow>
                page_loop W allPaths (i + 1) end' (results @ [make_result W (allPaths ! nat i) info])))
      else Inr results)"
  by pat_completeness auto
termination
  by (relation "measure (\<lambda>(W, allPaths, i, end', results). nat (end' - i))") auto

text \<open>Lines 2207-2265, after the paths are known.\<close>

definition paginate ::
  "world \<Rightarrow> string list \<Rightarrow> int \<Rightarrow> int \<Rightarrow> error + SearchResult list \<times> int" where
  "paginate W allPaths page pageSize =
     (let totalCount = int (length allPaths)
      in if totalCount = 0 then Inr ([], 0)
         else
           (let start = int64 (int64 (page - 1) * pageSize);
                end0 = int64 (start + pageSize);
                end' = (if end0 > totalCount then totalCount else end0)
            in if start < totalCount then
                 (case page_loop W allPaths start end' [] of
                    Inl e \<Rightarrow> Inl e
                  | Inr results \<Rightarrow> Inr (results, totalCount))
               else Inr ([], totalCount)))"

text \<open>The function returns \<open>(results, totalCount, fromCache, err)\<close>; the model adds the
  cache afterwards and the backends called.\<close>

definition searchFilesWithCache ::
  "world \<Rightarrow> cache \<Rightarrow> int \<Rightarrow> int \<Rightarrow> string \<Rightarrow> int \<Rightarrow> int
     \<Rightarrow> (error + SearchResult list \<times> int \<times> bool) \<times> cache \<times> backend list" where
  "searchFilesWithCache W searchCache now now' query page pageSize =
     (case resolve_paths W searchCache now now' query of
        (Inl e, searchCache', called) \<Rightarrow> (Inl e, searchCache', called)
      | (Inr (allPaths, fromCache), searchCache', called) \<Rightarrow>
          (case paginate W allPaths page pageSize of
             Inl e \<Rightarrow> (Inl e, searchCache', called)
           | Inr (results, totalCount) \<Rightarrow>
               (Inr (results, totalCount, fromCache), searchCache', called)))"

section \<open>cleanExpiredCache (main.go, lines 2269-2279)\<close>

text \<open>Deleting from a Go map while ranging over it is allowed, and every entry that is
  not deleted is visited once.\<close>

definition cleanExpiredCache :: "int \<Rightarrow> cache \<Rightarrow> cache" where
  "cleanExpiredCache now searchCache =
     (\<lambda>query. case searchCache query of
                 None \<Rightarrow> None
               | Some c \<Rightarrow> if Since now (Timestamp c) > cacheExpiry then None else Some c)"

section \<open>apiSearchHandler (main.go, lines 2103-2159)\<close>

record SearchResponse =
  Results :: "SearchResult list"
  Count :: int
  TotalCount :: int
  Query :: string
  Page :: int
  PageSize :: int
  TotalPages :: int

text \<open>
  What the client gets: the reply of \<open>http.Error\<close>, the response that is encoded as JSON,
  or nothing when the handler panics (net/http recovers the panic and closes the
  connection).
\<close>

datatype reply =
  Failed nat string
| Served SearchResponse
| Panicked error

text \<open>The message of line 2106 (the query must not be empty) and the prefix of line 2135
  (search failed).\<close>

definition empty_query_msg :: string where
  "empty_query_msg =
     [CHR 0xE6, CHR 0x9F, CHR 0xA5, CHR 0xE8, CHR 0xAF, CHR 0xA2, CHR 0xE5, CHR 0x8F, CHR 0x82,
      CHR 0xE6, CHR 0x95, CHR 0xB0, CHR 0xE4, CHR 0xB8, CHR 0x8D, CHR 0xE8, CHR 0x83, CHR 0xBD,
      CHR 0xE4, CHR 0xB8, CHR 0xBA, CHR 0xE7, CHR 0xA9, CHR 0xBA]"

definition search_error_prefix :: string where
  "search_error_prefix =
     [CHR 0xE6, CHR 0x90, CHR 0x9C, CHR 0xE7, CHR 0xB4, CHR 0xA2, CHR 0xE5, CHR 0xA4, CHR 0xB1,
      CHR 0xE8, CHR 0xB4, CHR 0xA5] @ '': ''"

text \<open>Lines 2114-2127: \<open>page\<close> and \<open>pageSize\<close> from the query parameters, the defaults
  where a parameter is absent, not a number or out of range.\<close>

definition parse_page :: "string \<Rightarrow> int" where
  "parse_page pageStr =
     (if pageStr \<noteq> [] then
        (case Atoi pageStr of Some p \<Rightarrow> if p > 0 then p else 1 | None \<Rightarrow> 1)
      else 1)"

definition parse_pageSize :: "string \<Rightarrow> int" where
  "parse_pageSize pageSizeStr =
     (if pageSizeStr \<noteq> [] then
        (case Atoi pageSizeStr of
           Some ps \<Rightarrow> if ps > 0 \<and> ps \<le> MaxPageSize then ps else DefaultPageSize
         | None \<Rightarrow> DefaultPageSize)
      else DefaultPageSize)"

text \<open>\<open>query\<close>, \<open>pageStr\<close> and \<open>pageSizeStr\<close> are the parameters \<open>q\<close>, \<open>page\<close> and
  \<open>pageSize\<close> of the URL.\<close>

definition apiSearchHandler ::
  "world \<Rightarrow> cache \<Rightarrow> int \<Rightarrow> int \<Rightarrow> string \<Rightarrow> string \<Rightarrow> string \<Rightarrow> reply \<times> cache" where
  "apiSearchHandler W searchCache now now' query pageStr pageSizeStr =
     (if query = [] then (Failed 400 empty_query_msg, searchCache)
      else
        (let page = parse_page pageStr;
             pageSize = parse_pageSize pageSizeStr
         in case searchFilesWithCache W searchCache now now' query page pageSize of
              (Inl (SearchFailed msg), searchCache', called) \<Rightarrow>
                (Failed 500 (search_error_prefix @ msg), searchCache')
            | (Inl (IndexOutOfRange i), searchCache', called) \<Rightarrow>
                (Panicked (IndexOutOfRange i), searchCache')
            | (Inr (results, totalCount, fromCache), searchCache', called) \<Rightarrow>
                (let totalPages = quo (int64 (int64 (totalCount + pageSize) - 1)) pageSize
                 in (Served \<lparr>Results = results, Count = int (length results),
                              TotalCount = totalCount, Query = query, Page = page,
                              PageSize = pageSize, TotalPages = totalPages\<rparr>,
                     searchCache'))))"

section \<open>The path of a request (main.go, lines 2295-2307, 2404-2416, 2890-2902)\<close>

definition ishex :: "char \<Rightarrow> bool" where
  "ishex c =
     (let n = (of_char c :: nat)
      in (48 \<le> n \<and> n \<le> 57) \<or> (97 \<le> n \<and> n \<le> 102) \<or> (65 \<le> n \<and> n \<le> 70))"

definition unhex :: "char \<Rightarrow> nat" where
  "unhex c =
     (let n = (of_char c :: nat)
      in if 48 \<le> n \<and> n \<le> 57 then n - 48
         else if 97 \<le> n \<and> n \<le> 102 then n - 97 + 10
         else if 65 \<le> n \<and> n \<le> 70 then n - 65 + 10
         else 0)"

text \<open>The byte with the value \<open>n < 256\<close>, from its bits.\<close>

definition byte :: "nat \<Rightarrow> char" where
  "byte n =
     Char (odd n) (odd (n div 2)) (odd (n div 4)) (odd (n div 8))
       (odd (n div 16)) (odd (n div 32)) (odd (n div 64)) (odd (n div 128))"

text \<open>
  \<open>url.QueryUnescape\<close>: \<open>%XY\<close> with two hexadecimal digits becomes the byte \<open>0xXY\<close>, \<open>+\<close>
  becomes a space, and a \<open>%\<close> that is not followed by two hexadecimal digits is an error.
\<close>

fun QueryUnescape :: "string \<Rightarrow> string option" where
  "QueryUnescape [] = Some []"
| "QueryUnescape (c # cs) =
     (if c = CHR ''%'' then
        (case cs of
           h1 # h2 # rest \<Rightarrow>
             if ishex h1 \<and> ishex h2 then
               map_option ((#) (byte (unhex h1 * 16 + unhex h2))) (QueryUnescape rest)
             else None
         | _ \<Rightarrow> None)
      else if c = CHR ''+'' then map_option ((#) (CHR '' '')) (QueryUnescape cs)
      else map_option ((#) c) (QueryUnescape cs))"

text \<open>The loop \<open>for i := 0; i < 3; i++\<close>, which the three handlers repeat word for word.\<close>

function unescape_loop :: "nat \<Rightarrow> string \<Rightarrow> string" where
  "unescape_loop i filePath =
     (if i < 3 then
        (case QueryUnescape filePath of
           Some decoded \<Rightarrow> unescape_loop (i + 1) decoded
         | None \<Rightarrow> filePath)
      else filePath)"
  by pat_completeness auto
termination
  by (relation "measure (\<lambda>(i, filePath). 3 - i)") auto

text \<open>The loop, then \<open>strings.ReplaceAll(filePath, "/", "\\")\<close>.\<close>

definition decode_path :: "string \<Rightarrow> string" where
  "decode_path suffix = ReplaceAll (unescape_loop 0 suffix) (CHR ''/'') (CHR 0x5C)"

text \<open>
  \<open>urlPath\<close> is \<open>r.URL.Path\<close>.  The handlers are registered for \<open>/file/\<close>, \<open>/stream/\<close> and
  \<open>/transcode/\<close>, so the path has the prefix that the slice expression cuts off.
\<close>

definition fileHandler_filePath :: "string \<Rightarrow> string" where
  "fileHandler_filePath urlPath = decode_path (drop 6 urlPath)"

definition streamHandler_filePath :: "string \<Rightarrow> string" where
  "streamHandler_filePath urlPath = decode_path (drop 8 urlPath)"

definition transcodeHandler_filePath :: "string \<Rightarrow> string" where
  "transcodeHandler_filePath urlPath = decode_path (drop 11 urlPath)"

section \<open>ffmpeg (main.go, lines 2660-2670 and 2883-2982)\<close>

text \<open>
  The global \<open>ffmpegAvailable\<close> is passed in and out.  A started process is the list of
  its arguments.  What \<open>exec.Command("ffmpeg", "-version").Run()\<close> does at startup is one
  of three things: no process is started and \<open>Run\<close> returns an error (ffmpeg is not found
  on the PATH, or the start fails); the process runs and \<open>Run\<close> returns an error; the
  process runs and \<open>Run\<close> returns no error.
\<close>

datatype probe = ProbeNotStarted | ProbeExitError | ProbeOk

definition checkFFmpegAvailability :: "probe \<Rightarrow> bool \<times> string list list" where
  "checkFFmpegAvailability p =
     ((if p \<noteq> ProbeOk then False else True),
      (if p = ProbeNotStarted then [] else [[''ffmpeg'', ''-version'']]))"

definition ffmpeg_unavailable_msg :: string where
  "ffmpeg_unavailable_msg =
     ''ffmpeg'' @ [CHR 0xE4, CHR 0xB8, CHR 0x8D, CHR 0xE5, CHR 0x8F, CHR 0xAF, CHR 0xE7, CHR 0x94, CHR 0xA8]"

definition file_missing_msg :: string where
  "file_missing_msg =
     [CHR 0xE6, CHR 0x96, CHR 0x87, CHR 0xE4, CHR 0xBB, CHR 0xB6, CHR 0xE4, CHR 0xB8, CHR 0x8D,
      CHR 0xE5, CHR 0xAD, CHR 0x98, CHR 0xE5, CHR 0x9C, CHR 0xA8]"

definition transcode_init_failed_msg :: string where
  "transcode_init_failed_msg =
     [CHR 0xE8, CHR 0xBD, CHR 0xAC, CHR 0xE7, CHR 0xA0, CHR 0x81, CHR 0xE5, CHR 0x88, CHR 0x9D,
      CHR 0xE5, CHR 0xA7, CHR 0x8B, CHR 0xE5, CHR 0x8C, CHR 0x96, CHR 0xE5, CHR 0xA4, CHR 0xB1,
      CHR 0xE8, CHR 0xB4, CHR 0xA5]"

definition transcode_start_failed_msg :: string where
  "transcode_start_failed_msg =
     [CHR 0xE8, CHR 0xBD, CHR 0xAC, CHR 0xE7, CHR 0xA0, CHR 0x81, CHR 0xE5, CHR 0x90, CHR 0xAF,
      CHR 0xE5, CHR 0x8A, CHR 0xA8, CHR 0xE5, CHR 0xA4, CHR 0xB1, CHR 0xE8, CHR 0xB4, CHR 0xA5]"

definition ffmpeg_args :: "string \<Rightarrow> string list" where
  "ffmpeg_args filePath =
     [''ffmpeg'', ''-i'', filePath, ''-c:v'', ''libx264'', ''-c:a'', ''aac'', ''-preset'', ''fast'',
      ''-crf'', ''23'', ''-maxrate'', ''2M'', ''-bufsize'', ''4M'', ''-f'', ''mp4'',
      ''-movflags'', ''frag_keyframe+empty_moov'', ''-'']"

text \<open>The output of the process goes to the response as it comes (\<open>cmd.Stdout = w\<close>).\<close>

definition copy_stdout :: "string \<Rightarrow> ResponseWriter \<Rightarrow> ResponseWriter" where
  "copy_stdout out w = (if out = [] then w else Write out w)"

text \<open>The result: the response, the processes started and \<open>ffmpegAvailable\<close> afterwards.\<close>

definition transcodeHandler ::
  "world \<Rightarrow> bool \<Rightarrow> ResponseWriter \<Rightarrow> string \<Rightarrow> ResponseWriter \<times> string list list \<times> bool" where
  "transcodeHandler W ffmpegAvailable w urlPath =
     (if \<not> ffmpegAvailable then (Error w ffmpeg_unavailable_msg 503, [], ffmpegAvailable)
      else
        (let filePath = transcodeHandler_filePath urlPath
         in if Stat W filePath = Inl NotExist then (Error w file_missing_msg 404, [], ffmpegAvailable)
            else
              (let w1 = Header_Set ''Content-Type'' ''video/mp4'' w;
                   w2 = Header_Set ''Accept-Ranges'' ''bytes'' w1;
                   w3 = Header_Set ''Cache-Control'' ''no-cache'' w2;
                   cmd = ffmpeg_args filePath
               in if \<not> StderrPipe_ok W then
                    (Error w3 transcode_init_failed_msg 500, [], ffmpegAvailable)
                  else if \<not> Start_ok W cmd then
                    (Error w3 transcode_start_failed_msg 500, [], ffmpegAvailable)
                  else (copy_stdout (Stdout_of W cmd) w3, [cmd], ffmpegAvailable))))"

text \<open>
  The process: \<open>main\<close> probes ffmpeg once (line 282), then the server answers the
  requests for \<open>/transcode/\<close> one after the other, each with a new response writer.
\<close>

fun serve_transcodes ::
  "world \<Rightarrow> bool \<Rightarrow> string list \<Rightarrow> ResponseWriter list \<times> string list list \<times> bool" where
  "serve_transcodes W ffmpegAvailable [] = ([], [], ffmpegAvailable)"
| "serve_transcodes W ffmpegAvailable (urlPath # rest) =
     (case transcodeHandler W ffmpegAvailable NewResponseWriter urlPath of
        (w, started, ffmpegAvailable') \<Rightarrow>
          (case serve_transcodes W ffmpegAvailable' rest of
             (ws, started', ffmpegAvailable'') \<Rightarrow> (w # ws, started @ started', ffmpegAvailable'')))"

definition main_transcodes ::
  "world \<Rightarrow> probe \<Rightarrow> string list \<Rightarrow> ResponseWriter list \<times> string list list \<times> bool" where
  "main_transcodes W p urlPaths =
     (case checkFFmpegAvailability p of
        (ffmpegAvailable, probes) \<Rightarrow>
          (case serve_transcodes W ffmpegAvailable urlPaths of
             (ws, started, ffmpegAvailable') \<Rightarrow> (ws, probes @ started, ffmpegAvailable')))"

section \<open>Successive requests and example inputs\<close>

text \<open>
  Requests for one query, served one after the other: each is \<open>(now, now', page,
  pageSize)\<close>, and the cache that one call leaves is the cache of the next.
\<close>

fun search_all :: "world \<Rightarrow> cache \<Rightarrow> string \<Rightarrow> (int \<times> int \<times> int \<times> int) list \<Rightarrow> cache" where
  "search_all W searchCache query [] = searchCache"
| "search_all W searchCache query ((now, now', page, pageSize) # rest) =
     search_all W (fst (snd (searchFilesWithCache W searchCache now now' query page pageSize)))
       query rest"

text \<open>
  Percent-decoding three times, stopping at the first pass that fails: the words of
  claim C10, to be compared with \<open>unescape_loop\<close>.
\<close>

definition three_passes :: "string \<Rightarrow> string" where
  "three_passes s =
     (case QueryUnescape s of
        None \<Rightarrow> s
      | Some s1 \<Rightarrow>
          (case QueryUnescape s1 of
             None \<Rightarrow> s1
           | Some s2 \<Rightarrow> (case QueryUnescape s2 of None \<Rightarrow> s2 | Some s3 \<Rightarrow> s3)))"

text \<open>
  A world in which both backends fail, every path is a plain file that exists and ffmpeg
  starts; and a cache that holds five paths for the query \<open>video\<close>, stored at time 0.
\<close>

definition example_info :: FileInfo where
  "example_info = \<lparr>info_Size = 1, info_ModTime = ''2024-01-01 00:00:00'', info_IsDir = False\<rparr>"

definition example_world :: world where
  "example_world =
     \<lparr>EverythingSDK = (\<lambda>query. Inl ''IPC error''),
      ESExe = (\<lambda>query. Inl ''es.exe not found''),
      Stat = (\<lambda>filePath. Inr example_info),
      Base = (\<lambda>filePath. filePath),
      LowerExt = (\<lambda>filePath. []),
      StderrPipe_ok = True,
      Start_ok = (\<lambda>cmd. True),
      Stdout_of = (\<lambda>cmd. ''mp4 bytes'')\<rparr>"

text \<open>The same world, but the SDK finds two paths for every query.\<close>

definition finding_world :: world where
  "finding_world = example_world\<lparr>EverythingSDK := (\<lambda>query. Inr [''a'', ''b''])\<rparr>"

definition example_cache :: cache where
  "example_cache = [''video'' \<mapsto> \<lparr>Paths = [''a'', ''b'', ''c'', ''d'', ''e''], Timestamp = 0\<rparr>]"

text \<open>The records of the paths of a window, in order, without the paths that \<open>os.Stat\<close>
  rejects.\<close>

definition window_records :: "world \<Rightarrow> string list \<Rightarrow> SearchResult list" where
  "window_records W paths =
     List.map_filter
       (\<lambda>p. case Stat W p of Inl err \<Rightarrow> None | Inr info \<Rightarrow> Some (make_result W p info)) paths"

section \<open>Facts about the library functions\<close>

declare FormatNat.simps [simp del]
declare page_loop.simps [simp del]
declare unescape_loop.simps [simp del]

lemma length_example_file: "length example_file = 1000"
  by (simp add: example_file_def)

lemma Split_no_sep: "sep \<notin> set s \<Longrightarrow> Split s sep = [s]"
  by (induction s) auto

lemma Split_append: "sep \<notin> set s \<Longrightarrow> Split (s @ sep # e) sep = s # Split e sep"
  by (induction s) auto

lemma Split_two: "sep \<notin> set s \<Longrightarrow> sep \<notin> set e \<Longrightarrow> Split (s @ sep # e) sep = [s, e]"
  by (simp add: Split_append Split_no_sep)

lemma Split_covers: "c \<in> set s \<Longrightarrow> c \<noteq> sep \<Longrightarrow> \<exists>p \<in> set (Split s sep). c \<in> set p"
  by (induction s) (auto split: list.splits)

lemma ParseInt_range: "ParseInt s = Some n \<Longrightarrow> - (2 ^ 63) \<le> n \<and> n < 2 ^ 63"
  by (auto simp: ParseInt_def Let_def split: list.splits if_splits)

lemma ParseInt_nonneg: "ParseInt s = Some n \<Longrightarrow> CHR ''-'' \<notin> set s \<Longrightarrow> 0 \<le> n"
  by (auto simp: ParseInt_def Let_def split: list.splits if_splits)

lemma ParseInt_not_digit:
  "c \<in> set s \<Longrightarrow> \<not> is_digit c \<Longrightarrow> c \<noteq> CHR ''+'' \<Longrightarrow> c \<noteq> CHR ''-'' \<Longrightarrow> ParseInt s = None"
  by (auto simp: ParseInt_def Let_def list_all_iff split: list.splits if_splits)

lemma ParseInt_Nil: "ParseInt [] = None"
  by (simp add: ParseInt_def)

lemma int64_id: "- (2 ^ 63) \<le> x \<Longrightarrow> x < 2 ^ 63 \<Longrightarrow> int64 x = x"
  by (simp add: int64_def signed_take_bit_int_eq_self)

lemma Error_status: "status (Error NewResponseWriter msg code) = code"
  by (simp add: Error_def Write_def WriteHeader_def Header_Set_def Header_Del_def
      NewResponseWriter_def Let_def)

lemma Error_body: "body (Error NewResponseWriter msg code) = msg @ [CHR 0x0A]"
  by (simp add: Error_def Write_def WriteHeader_def Header_Set_def Header_Del_def
      NewResponseWriter_def Let_def)

section \<open>serveRange: the claims C1, C2 and C3\<close>

lemma serveRange_parsed:
  assumes hdr: "rangeHeader = ''bytes='' @ s @ ''-'' @ e"
    and "CHR ''-'' \<notin> set s" and "CHR ''-'' \<notin> set e"
    and st: "if s = [] then start = 0 else ParseInt s = Some start"
    and en: "if e = [] then end' = int64 (fileSize - 1) else ParseInt e = Some end'"
  shows "serveRange w rangeHeader file fileSize contentType =
     (if start > end' \<or> start \<ge> fileSize then Error w invalid_range_msg 416
      else CopyN
        (WriteHeader 206
          (Header_Set ''Accept-Ranges'' ''bytes''
            (Header_Set ''Content-Length'' (FormatInt (int64 (end' - start + 1)))
              (Header_Set ''Content-Range''
                 (''bytes '' @ FormatInt start @ ''-'' @ FormatInt end' @ ''/'' @ FormatInt fileSize)
                 (Header_Set ''Content-Type'' contentType w)))))
        (drop (nat start) file) (int64 (end' - start + 1)))"
proof -
  have pre: "HasPrefix rangeHeader ''bytes=''"
    by (simp add: hdr HasPrefix_def)
  have "drop 6 rangeHeader = s @ CHR ''-'' # e"
    by (simp add: hdr)
  then have parts: "Split (drop 6 rangeHeader) (CHR ''-'') = [s, e]"
    using assms(2,3) by (simp add: Split_two)
  have p0: "(if s \<noteq> [] then ParseInt s else Some 0) = Some start"
    using st by (simp split: if_splits)
  have p1: "(if e \<noteq> [] then ParseInt e else Some (int64 (fileSize - 1))) = Some end'"
    using en by (simp split: if_splits)
  have n0: "[s, e] ! 0 = s" and n1: "[s, e] ! 1 = e"
    by simp_all
  show ?thesis
    unfolding serveRange_def Let_def parts n0 n1 p0 p1 using pre by simp
qed

lemma length_two: "length xs = 2 \<Longrightarrow> \<exists>a b. xs = [a, b]"
proof (cases xs)
  case Nil
  assume "length xs = 2"
  with Nil show ?thesis by simp
next
  case (Cons a ys)
  assume "length xs = 2"
  with Cons have "length ys = 1" by simp
  then obtain b where "ys = [b]" by (cases ys) auto
  with Cons show ?thesis by simp
qed

lemma in_set_drop:
  assumes "take n h = p" and "c \<in> set h" and "c \<notin> set p"
  shows "c \<in> set (drop n h)"
proof -
  have "set h = set (take n h) \<union> set (drop n h)"
    by (metis append_take_drop_id set_append)
  with assms show ?thesis by blast
qed

lemma serveRange_comma:
  assumes c: "CHR '','' \<in> set rangeHeader"
  shows "serveRange w rangeHeader file fileSize contentType = Error w invalid_range_msg 416"
proof (cases "HasPrefix rangeHeader ''bytes='' \<and> length (Split (drop 6 rangeHeader) (CHR ''-'')) = 2")
  case False
  then show ?thesis by (auto simp: serveRange_def Let_def)
next
  case True
  have l6: "length ''bytes='' = 6" by simp
  from True have t6: "take 6 rangeHeader = ''bytes=''"
    unfolding HasPrefix_def l6 by (rule conjunct1)
  have "CHR '','' \<notin> set ''bytes=''" by simp
  with t6 c have c': "CHR '','' \<in> set (drop 6 rangeHeader)"
    by (rule_tac in_set_drop)
  from True obtain a b where ab: "Split (drop 6 rangeHeader) (CHR ''-'') = [a, b]"
    using length_two by blast
  have n0: "[a, b] ! 0 = a" and n1: "[a, b] ! 1 = b"
    by simp_all
  from Split_covers [OF c', of "CHR ''-''"] ab have "CHR '','' \<in> set a \<or> CHR '','' \<in> set b"
    by auto
  then have bad: "(a \<noteq> [] \<and> ParseInt a = None) \<or> (b \<noteq> [] \<and> ParseInt b = None)"
    using ParseInt_not_digit [of "CHR '',''"] by (auto simp: is_digit_def)
  show ?thesis
  proof (cases "a \<noteq> [] \<and> ParseInt a = None")
    case True
    then show ?thesis
      unfolding serveRange_def Let_def ab n0 n1 by simp
  next
    case False
    with bad have "b \<noteq> [] \<and> ParseInt b = None" by blast
    then show ?thesis
      unfolding serveRange_def Let_def ab n0 n1
      by (cases "if a \<noteq> [] then ParseInt a else Some 0") simp_all
  qed
qed

lemma Error_fresh:
  "status (Error NewResponseWriter msg code) = code
   \<and> body (Error NewResponseWriter msg code) = msg @ [CHR 0x0A]"
  by (simp add: Error_status Error_body)

text \<open>
  Claim C1, as amended.  For a Range header \<open>bytes=<start>-<end>\<close> or \<open>bytes=<start>-\<close>
  with a decimal start, with \<open>start \<le> end\<close>, \<open>start < fileSize\<close> and also
  \<open>end < fileSize\<close> (\<open>end\<close> is \<open>fileSize - 1\<close> when omitted), on a file of \<open>fileSize\<close>
  bytes, \<open>serveRange\<close> answers 206 with \<open>Content-Range: bytes start-end/fileSize\<close>,
  \<open>Content-Length: end - start + 1\<close>, \<open>Accept-Ranges: bytes\<close> and a body of exactly
  \<open>end - start + 1\<close> bytes, those of the file from offset \<open>start\<close>.
\<close>

theorem serveRange_partial_content:
  assumes "rangeHeader = ''bytes='' @ s @ ''-'' @ e"
    and "CHR ''-'' \<notin> set s" and "CHR ''-'' \<notin> set e"
    and "ParseInt s = Some start"
    and "if e = [] then end' = fileSize - 1 else ParseInt e = Some end'"
    and "start \<le> end'" and "start < fileSize" and "end' < fileSize"
    and "fileSize = int (length file)" and "fileSize < 2 ^ 63"
  shows "status (serveRange NewResponseWriter rangeHeader file fileSize contentType) = 206
    \<and> header (serveRange NewResponseWriter rangeHeader file fileSize contentType) ''Content-Range''
        = Some (''bytes '' @ FormatInt start @ ''-'' @ FormatInt end' @ ''/'' @ FormatInt fileSize)
    \<and> header (serveRange NewResponseWriter rangeHeader file fileSize contentType) ''Content-Length''
        = Some (FormatInt (end' - start + 1))
    \<and> header (serveRange NewResponseWriter rangeHeader file fileSize contentType) ''Accept-Ranges''
        = Some ''bytes''
    \<and> body (serveRange NewResponseWriter rangeHeader file fileSize contentType)
        = take (nat (end' - start + 1)) (drop (nat start) file)
    \<and> int (length (body (serveRange NewResponseWriter rangeHeader file fileSize contentType)))
        = end' - start + 1"
proof -
  have s0: "0 \<le> start"
    using assms(2,4) by (rule_tac ParseInt_nonneg)
  have sne: "s \<noteq> []"
    using assms(4) by (auto simp: ParseInt_Nil)
  have fs: "int64 (fileSize - 1) = fileSize - 1"
    using assms(7,10) s0 by (simp add: int64_id)
  have cl: "int64 (end' - start + 1) = end' - start + 1"
    using assms(6,8,10) s0 by (simp add: int64_id)
  have st: "if s = [] then start = 0 else ParseInt s = Some start"
    using sne assms(4) by simp
  have en: "if e = [] then end' = int64 (fileSize - 1) else ParseInt e = Some end'"
    using assms(5) fs by (simp split: if_splits)
  have len: "nat (end' - start + 1) \<le> length (drop (nat start) file)"
    using assms(6,8,9) s0 by simp
  have ne: "take (nat (end' - start + 1)) (drop (nat start) file) \<noteq> []"
    using assms(6,7,9) s0 by auto
  have ok: "\<not> (start > end' \<or> start \<ge> fileSize)"
    using assms(6,7) by simp
  note eq = serveRange_parsed [OF assms(1,2,3) st en]
  show ?thesis
    unfolding eq cl using ok ne len
    by (simp add: CopyN_def Write_def WriteHeader_def Header_Set_def NewResponseWriter_def Let_def)
qed

text \<open>The 1000-byte file and \<open>Range: bytes=500-\<close>: status 206,
  \<open>Content-Range: bytes 500-999/1000\<close> and a body of 500 bytes.\<close>

theorem serveRange_partial_content_witness:
  "status (serveRange NewResponseWriter ''bytes=500-'' example_file 1000 ''video/mp4'') = 206
   \<and> header (serveRange NewResponseWriter ''bytes=500-'' example_file 1000 ''video/mp4'')
        ''Content-Range'' = Some ''bytes 500-999/1000''
   \<and> header (serveRange NewResponseWriter ''bytes=500-'' example_file 1000 ''video/mp4'')
        ''Content-Length'' = Some ''500''
   \<and> length (body (serveRange NewResponseWriter ''bytes=500-'' example_file 1000 ''video/mp4'')) = 500"
proof -
  have h1: "''bytes=500-'' = ''bytes='' @ ''500'' @ ''-'' @ []" by simp
  have h2: "CHR ''-'' \<notin> set ''500''" by simp
  have h3: "CHR ''-'' \<notin> set []" by simp
  have h4: "ParseInt ''500'' = Some 500"
    by (simp add: ParseInt_def is_digit_def digits_val_def digit_val_def)
  have h5: "if [] = ([]::string) then (999::int) = 1000 - 1 else ParseInt [] = Some 999" by simp
  have h9: "(1000::int) = int (length example_file)" by (simp add: length_example_file)
  have f1: "FormatInt 500 = ''500''" by (simp add: FormatInt_def FormatNat.simps digit_char_def)
  have f2: "FormatInt 999 = ''999''" by (simp add: FormatInt_def FormatNat.simps digit_char_def)
  have f3: "FormatInt 1000 = ''1000''" by (simp add: FormatInt_def FormatNat.simps digit_char_def)
  have "(999::int) - 500 + 1 = 500" by simp
  with serveRange_partial_content [OF h1 h2 h3 h4 h5 _ _ _ h9, of "''video/mp4''"] f1 f2 f3
  show ?thesis by (simp add: length_example_file)
qed

text \<open>
  Claim C1 as first stated fails where \<open>end\<close> is not an offset of the file: for
  \<open>Range: bytes=0-5000\<close> on the 1000-byte file, \<open>start \<le> end\<close> and \<open>start < fileSize\<close>
  hold, the reply announces \<open>Content-Length: 5001\<close>, and the body has the 1000 bytes
  of the file.
\<close>

theorem serveRange_end_beyond_file:
  "status (serveRange NewResponseWriter ''bytes=0-5000'' example_file 1000 ''video/mp4'') = 206
   \<and> header (serveRange NewResponseWriter ''bytes=0-5000'' example_file 1000 ''video/mp4'')
        ''Content-Length'' = Some ''5001''
   \<and> length (body (serveRange NewResponseWriter ''bytes=0-5000'' example_file 1000 ''video/mp4'')) = 1000"
proof -
  have h1: "''bytes=0-5000'' = ''bytes='' @ ''0'' @ ''-'' @ ''5000''" by simp
  have h2: "CHR ''-'' \<notin> set ''0''" and h3: "CHR ''-'' \<notin> set ''5000''" by simp_all
  have h4: "if ''0'' = [] then (0::int) = 0 else ParseInt ''0'' = Some 0"
    by (simp add: ParseInt_def is_digit_def digits_val_def digit_val_def)
  have h5: "if ''5000'' = [] then (5000::int) = int64 (1000 - 1) else ParseInt ''5000'' = Some 5000"
    by (simp add: ParseInt_def is_digit_def digits_val_def digit_val_def)
  have f1: "FormatInt 5001 = ''5001''" by (simp add: FormatInt_def FormatNat.simps digit_char_def)
  have i: "int64 (5000 - 0 + 1) = 5001" by (simp add: int64_id)
  have ne: "example_file \<noteq> []"
    using length_example_file by auto
  show ?thesis
    unfolding serveRange_parsed [OF h1 h2 h3 h4 h5] i using ne
    by (simp add: CopyN_def Write_def WriteHeader_def Header_Set_def NewResponseWriter_def
        Let_def f1 length_example_file)
qed

text \<open>
  Claim C2, as amended.  When the Range header contains a comma, or when its parsed range
  has \<open>end < start\<close> or \<open>fileSize \<le> start\<close>, \<open>serveRange\<close> answers 416, and the body is
  the message of \<open>http.Error\<close> and a newline: no byte of the file.
\<close>

theorem serveRange_not_satisfiable:
  assumes "CHR '','' \<in> set rangeHeader
     \<or> (rangeHeader = ''bytes='' @ s @ ''-'' @ e
        \<and> CHR ''-'' \<notin> set s \<and> CHR ''-'' \<notin> set e
        \<and> (if s = [] then start = 0 else ParseInt s = Some start)
        \<and> (if e = [] then end' = fileSize - 1 else ParseInt e = Some end')
        \<and> (end' < start \<or> fileSize \<le> start))"
    and "0 \<le> fileSize" and "fileSize < 2 ^ 63"
  shows "status (serveRange NewResponseWriter rangeHeader file fileSize contentType) = 416
    \<and> body (serveRange NewResponseWriter rangeHeader file fileSize contentType)
        = invalid_range_msg @ [CHR 0x0A]"
proof -
  have "serveRange NewResponseWriter rangeHeader file fileSize contentType
      = Error NewResponseWriter invalid_range_msg 416"
    using assms(1)
  proof
    assume "CHR '','' \<in> set rangeHeader"
    then show ?thesis by (rule serveRange_comma)
  next
    assume a: "rangeHeader = ''bytes='' @ s @ ''-'' @ e
        \<and> CHR ''-'' \<notin> set s \<and> CHR ''-'' \<notin> set e
        \<and> (if s = [] then start = 0 else ParseInt s = Some start)
        \<and> (if e = [] then end' = fileSize - 1 else ParseInt e = Some end')
        \<and> (end' < start \<or> fileSize \<le> start)"
    have fs: "int64 (fileSize - 1) = fileSize - 1"
      using assms(2,3) by (simp add: int64_id)
    from a have en: "if e = [] then end' = int64 (fileSize - 1) else ParseInt e = Some end'"
      by (simp add: fs)
    from a have h: "rangeHeader = ''bytes='' @ s @ ''-'' @ e" and ns: "CHR ''-'' \<notin> set s"
      and ne: "CHR ''-'' \<notin> set e"
      and st: "if s = [] then start = 0 else ParseInt s = Some start"
      and bad: "end' < start \<or> fileSize \<le> start"
      by simp_all
    show ?thesis
      unfolding serveRange_parsed [OF h ns ne st en] using bad by auto
  qed
  then show ?thesis
    by (simp only: Error_fresh)
qed

text \<open>\<open>Range: bytes=2000-3000\<close> on the 1000-byte file.\<close>

theorem serveRange_not_satisfiable_witness:
  "status (serveRange NewResponseWriter ''bytes=2000-3000'' example_file 1000 ''video/mp4'') = 416
   \<and> body (serveRange NewResponseWriter ''bytes=2000-3000'' example_file 1000 ''video/mp4'')
       = invalid_range_msg @ [CHR 0x0A]"
proof -
  have p1: "ParseInt ''2000'' = Some 2000"
    by (simp add: ParseInt_def is_digit_def digits_val_def digit_val_def)
  have p2: "ParseInt ''3000'' = Some 3000"
    by (simp add: ParseInt_def is_digit_def digits_val_def digit_val_def)
  have h: "CHR '','' \<in> set ''bytes=2000-3000''
     \<or> (''bytes=2000-3000'' = ''bytes='' @ ''2000'' @ ''-'' @ ''3000''
        \<and> CHR ''-'' \<notin> set ''2000'' \<and> CHR ''-'' \<notin> set ''3000''
        \<and> (if ''2000'' = [] then (2000::int) = 0 else ParseInt ''2000'' = Some 2000)
        \<and> (if ''3000'' = [] then (3000::int) = 1000 - 1 else ParseInt ''3000'' = Some 3000)
        \<and> ((3000::int) < 2000 \<or> (1000::int) \<le> 2000))"
    using p1 p2 by simp
  show ?thesis
    using serveRange_not_satisfiable [OF h, of example_file "''video/mp4''"] by simp
qed

text \<open>Claim C2 as first stated asks for an empty body; the body of the 416 reply to
  \<open>Range: bytes=2000-3000\<close> on the 1000-byte file is not empty.\<close>

theorem serveRange_error_body:
  "status (serveRange NewResponseWriter ''bytes=2000-3000'' example_file 1000 ''video/mp4'') = 416
   \<and> body (serveRange NewResponseWriter ''bytes=2000-3000'' example_file 1000 ''video/mp4'') \<noteq> []"
proof -
  have h1: "''bytes=2000-3000'' = ''bytes='' @ ''2000'' @ ''-'' @ ''3000''" by simp
  have h2: "CHR ''-'' \<notin> set ''2000''" and h3: "CHR ''-'' \<notin> set ''3000''" by simp_all
  have h4: "if ''2000'' = [] then (2000::int) = 0 else ParseInt ''2000'' = Some 2000"
    by (simp add: ParseInt_def is_digit_def digits_val_def digit_val_def)
  have h5: "if ''3000'' = [] then (3000::int) = int64 (1000 - 1) else ParseInt ''3000'' = Some 3000"
    by (simp add: ParseInt_def is_digit_def digits_val_def digit_val_def)
  show ?thesis
    unfolding serveRange_parsed [OF h1 h2 h3 h4 h5]
    by (simp add: Error_fresh)
qed




section \<open>The cache: the claims C5, C6, C7 and C9\<close>

lemma expiry_value: "cacheExpiry = 600000000000"
  by (simp add: cacheExpiry_def Minute_def)

lemma Since_lt_expiry: "(Since now t < cacheExpiry) = (now - t < cacheExpiry)"
  by (auto simp: Since_def expiry_value)

lemma Since_gt_expiry: "(Since now t > cacheExpiry) = (now - t > cacheExpiry)"
  by (auto simp: Since_def expiry_value)

lemma cache_lookup_store:
  "cache_lookup now (cache_store t searchCache query P) query
     = (if now - t < cacheExpiry then Some P else None)"
  by (simp add: cache_lookup_def cache_store_def Since_lt_expiry)

lemma resolve_paths_hit:
  "cache_lookup now searchCache query = Some P \<Longrightarrow>
   resolve_paths W searchCache now now' query = (Inr (P, True), searchCache, [])"
  by (simp add: resolve_paths_def)

lemma searchFilesWithCache_hit:
  "cache_lookup now searchCache query = Some P \<Longrightarrow>
   fst (snd (searchFilesWithCache W searchCache now now' query page pageSize)) = searchCache
   \<and> snd (snd (searchFilesWithCache W searchCache now now' query page pageSize)) = []"
  by (simp add: searchFilesWithCache_def resolve_paths_hit split: sum.splits prod.splits)

lemma search_all_hits:
  assumes "searchCache query = Some entry"
    and "\<forall>(now, now', page, pageSize) \<in> set reqs. now - Timestamp entry < cacheExpiry"
  shows "search_all W searchCache query reqs = searchCache"
  using assms(2)
proof (induction reqs)
  case Nil
  show ?case by simp
next
  case (Cons r reqs)
  obtain now now' page pageSize where r: "r = (now, now', page, pageSize)"
    by (cases r) auto
  from Cons.prems r have "now - Timestamp entry < cacheExpiry"
    by simp
  then have "cache_lookup now searchCache query = Some (Paths entry)"
    using assms(1) by (simp add: cache_lookup_def Since_lt_expiry)
  then have "fst (snd (searchFilesWithCache W searchCache now now' query page pageSize)) = searchCache"
    by (simp add: searchFilesWithCache_hit)
  with Cons r show ?case by simp
qed

lemma locate_order:
  "snd (locate W query) = (case EverythingSDK W query of Inr paths \<Rightarrow> [SDK] | Inl err \<Rightarrow> [SDK, ES])"
  by (simp add: locate_def split: sum.splits)

lemma locate_both_fail:
  "EverythingSDK W query = Inl e1 \<Longrightarrow> ESExe W query = Inl e2 \<Longrightarrow>
   locate W query = (Inl (SearchFailed (search_failed_msg e2 e2)), [SDK, ES])"
  by (simp add: locate_def)

lemma resolve_paths_miss_stores:
  "cache_lookup now searchCache query = None \<Longrightarrow> fst (locate W query) = Inr P \<Longrightarrow>
   resolve_paths W searchCache now now' query
     = (Inr (P, False), cache_store now' searchCache query P, snd (locate W query))"
  by (cases "locate W query") (simp add: resolve_paths_def)

lemma cleanExpiredCache_entry:
  "cleanExpiredCache now searchCache query =
     (case searchCache query of
        None \<Rightarrow> None
      | Some c \<Rightarrow> if now - Timestamp c > cacheExpiry then None else Some c)"
  by (simp add: cleanExpiredCache_def Since_gt_expiry split: option.splits)

lemma resolve_paths_miss:
  "cache_lookup now searchCache query = None \<Longrightarrow>
   resolve_paths W searchCache now now' query =
     (case locate W query of
        (Inl e, called) \<Rightarrow> (Inl e, searchCache, called)
      | (Inr allPaths, called) \<Rightarrow>
          (Inr (allPaths, False), cache_store now' searchCache query allPaths, called))"
  by (simp add: resolve_paths_def)

lemma locate_calls_SDK: "snd (locate W query) = [SDK] \<or> snd (locate W query) = [SDK, ES]"
  by (simp add: locate_def split: sum.splits)

lemma resolve_paths_stored:
  assumes "resolve_paths W searchCache now now' query = (Inr (P, False), searchCache', called)"
  shows "searchCache' = cache_store now' searchCache query P"
  using assms
  by (auto simp: resolve_paths_def split: option.splits prod.splits sum.splits)

lemma finding_put:
  "resolve_paths finding_world Map.empty 0 0 ''video''
     = (Inr ([''a'', ''b''], False), cache_store 0 Map.empty ''video'' [''a'', ''b''], [SDK])"
  by (simp add: resolve_paths_def cache_lookup_def locate_def finding_world_def example_world_def)

lemma finding_locate: "locate finding_world ''video'' = (Inr [''a'', ''b''], [SDK])"
  by (simp add: locate_def finding_world_def example_world_def)

text \<open>
  Claim C5.  Let a request for \<open>q\<close> miss the cache and store the list \<open>P\<close> at time \<open>t\<close>
  (the Put of lines 2197-2202), and let any number of requests for \<open>q\<close> follow at an age
  below \<open>cacheExpiry\<close> (10 minutes).  Then a request at an age \<open>now - t\<close> below
  \<open>cacheExpiry\<close> is a hit: it gives exactly the list \<open>P\<close>, in its order, with
  \<open>fromCache\<close> true and no backend called, and leaves the cache as it is.  A request at
  an age of \<open>cacheExpiry\<close> or more is a miss: it does what a request without an entry
  does, so it is never reported as coming from the cache and the SDK is called.
\<close>

theorem cache_put_then_get:
  assumes "resolve_paths W0 searchCache0 t0 t q = (Inr (P, False), searchCache, called)"
    and "\<forall>(now, now', page, pageSize) \<in> set reqs. now - t < cacheExpiry"
  shows "(now - t < cacheExpiry \<longrightarrow>
            resolve_paths W (search_all W searchCache q reqs) now now' q
              = (Inr (P, True), searchCache, []))
       \<and> (cacheExpiry \<le> later - t \<longrightarrow>
            resolve_paths W (search_all W searchCache q reqs) later later' q
              = (case locate W q of
                   (Inl e, called') \<Rightarrow> (Inl e, searchCache, called')
                 | (Inr paths, called') \<Rightarrow>
                     (Inr (paths, False), cache_store later' searchCache q paths, called'))
            \<and> (\<forall>paths. fst (resolve_paths W (search_all W searchCache q reqs) later later' q)
                  \<noteq> Inr (paths, True))
            \<and> (snd (snd (resolve_paths W (search_all W searchCache q reqs) later later' q)) = [SDK]
               \<or> snd (snd (resolve_paths W (search_all W searchCache q reqs) later later' q))
                  = [SDK, ES]))"
proof -
  have sc: "searchCache = cache_store t searchCache0 q P"
    using assms(1) by (rule resolve_paths_stored)
  have e: "searchCache q = Some \<lparr>Paths = P, Timestamp = t\<rparr>"
    by (simp add: sc cache_store_def)
  have same: "search_all W searchCache q reqs = searchCache"
  proof (rule search_all_hits [where entry = "\<lparr>Paths = P, Timestamp = t\<rparr>"])
    show "searchCache q = Some \<lparr>Paths = P, Timestamp = t\<rparr>"
      by (rule e)
    show "\<forall>(now, now', page, pageSize) \<in> set reqs.
            now - Timestamp \<lparr>Paths = P, Timestamp = t\<rparr> < cacheExpiry"
      using assms(2) by simp
  qed
  have hit: "now - t < cacheExpiry \<Longrightarrow>
      resolve_paths W searchCache now now' q = (Inr (P, True), searchCache, [])"
    by (rule resolve_paths_hit) (simp add: sc cache_lookup_store)
  have miss: "resolve_paths W searchCache later later' q
        = (case locate W q of
             (Inl e, called') \<Rightarrow> (Inl e, searchCache, called')
           | (Inr paths, called') \<Rightarrow>
               (Inr (paths, False), cache_store later' searchCache q paths, called'))"
    if "cacheExpiry \<le> later - t"
    by (rule resolve_paths_miss) (use that in \<open>simp add: sc cache_lookup_store\<close>)
  have nothit: "\<forall>paths. fst (resolve_paths W searchCache later later' q) \<noteq> Inr (paths, True)"
    if "cacheExpiry \<le> later - t"
    unfolding miss [OF that] by (cases "locate W q") (auto split: sum.splits)
  have calls: "snd (snd (resolve_paths W searchCache later later' q)) = snd (locate W q)"
    if "cacheExpiry \<le> later - t"
    unfolding miss [OF that] by (cases "locate W q") (auto split: sum.splits)
  show ?thesis
    unfolding same using hit miss nothit calls locate_calls_SDK [of W q] by auto
qed

text \<open>A miss that stores two paths at time 0, two requests within the ten minutes, then
  a hit at age 3 ns and a miss at the age of ten minutes, which searches again.\<close>

theorem cache_put_then_get_witness:
  "resolve_paths finding_world
      (search_all finding_world (cache_store 0 Map.empty ''video'' [''a'', ''b'']) ''video''
         [(1, 1, 1, 50), (2, 2, 2, 50)]) 3 3 ''video''
     = (Inr ([''a'', ''b''], True), cache_store 0 Map.empty ''video'' [''a'', ''b''], [])
   \<and> resolve_paths finding_world
      (search_all finding_world (cache_store 0 Map.empty ''video'' [''a'', ''b'']) ''video''
         [(1, 1, 1, 50), (2, 2, 2, 50)]) 600000000000 600000000001 ''video''
     = (Inr ([''a'', ''b''], False),
        cache_store 600000000001 (cache_store 0 Map.empty ''video'' [''a'', ''b'']) ''video''
          [''a'', ''b''],
        [SDK])"
proof -
  have h: "\<forall>(now, now', page, pageSize) \<in> set [(1::int, 1::int, 1::int, 50::int), (2, 2, 2, 50)].
             now - 0 < cacheExpiry"
    by (simp add: expiry_value)
  show ?thesis
    using cache_put_then_get [where now = 3 and now' = 3 and later = 600000000000
        and later' = 600000000001 and W = finding_world, OF finding_put h]
    by (simp add: expiry_value finding_locate del: search_all.simps)
qed

text \<open>
  Claim C9.  Requests that hit the entry of a query leave the whole cache as it was: the
  paths and the timestamp of the entry, and every other entry.  No hit moves the
  timestamp, so however many hits there were, the entry is a miss exactly from the age
  \<open>cacheExpiry\<close> on.
\<close>

theorem cache_hit_reads_only:
  assumes "searchCache query = Some entry"
    and "\<forall>(now, now', page, pageSize) \<in> set reqs. now - Timestamp entry < cacheExpiry"
  shows "search_all W searchCache query reqs = searchCache
    \<and> (cache_lookup later (search_all W searchCache query reqs) query = None)
        = (cacheExpiry \<le> later - Timestamp entry)"
proof -
  have "search_all W searchCache query reqs = searchCache"
    using assms by (rule search_all_hits [where entry = entry])
  then show ?thesis
    using assms(1) by (auto simp: cache_lookup_def Since_lt_expiry)
qed

text \<open>Two hits on the example cache, the second one nanosecond before the entry
  expires; at ten minutes the entry is a miss.\<close>

theorem cache_hit_reads_only_witness:
  "search_all example_world example_cache ''video'' [(1, 1, 1, 2), (599999999999, 7, 2, 2)]
     = example_cache
   \<and> (cache_lookup 600000000000
         (search_all example_world example_cache ''video'' [(1, 1, 1, 2), (599999999999, 7, 2, 2)])
         ''video'' = None)"
proof -
  have e: "example_cache ''video'' = Some \<lparr>Paths = [''a'', ''b'', ''c'', ''d'', ''e''], Timestamp = 0\<rparr>"
    by (simp add: example_cache_def)
  have h: "\<forall>(now, now', page, pageSize) \<in> set [(1::int, 1::int, 1::int, 2::int), (599999999999, 7, 2, 2)].
             now - Timestamp \<lparr>Paths = [''a'', ''b'', ''c'', ''d'', ''e''], Timestamp = 0\<rparr> < cacheExpiry"
    by (simp add: expiry_value)
  show ?thesis
    using cache_hit_reads_only [where searchCache = example_cache and query = "''video''"
        and W = example_world and later = 600000000000, OF e h]
    by (auto simp add: expiry_value simp del: search_all.simps)
qed

text \<open>
  Claim C6 asks that a sweep removes every entry of age \<open>cacheExpiry\<close> or more.
  \<open>cleanExpiredCache\<close> tests \<open>>\<close> where the lookup tests \<open><\<close>: the entry stored at time 0
  is still in the cache after a sweep at time \<open>cacheExpiry\<close>, though a lookup at that
  time treats it as expired.
\<close>

theorem sweep_keeps_entry_at_expiry:
  "example_cache ''video'' = Some \<lparr>Paths = [''a'', ''b'', ''c'', ''d'', ''e''], Timestamp = 0\<rparr>
   \<and> cleanExpiredCache cacheExpiry example_cache ''video'' = example_cache ''video''
   \<and> cache_lookup cacheExpiry example_cache ''video'' = None"
  by (simp add: example_cache_def cleanExpiredCache_def cache_lookup_def Since_def expiry_value)

text \<open>
  Claim C7 asks that the error returned when both backends fail combines the error of
  the SDK and the error of es.exe.  In the example world the SDK fails with
  \<open>IPC error\<close> and es.exe with \<open>es.exe not found\<close>: both backends are called, in order,
  the cache stays empty, and the message names the error of es.exe twice and the error
  of the SDK nowhere.
\<close>

theorem both_backends_fail_message:
  "searchFilesWithCache example_world Map.empty 0 0 ''video'' 1 50
     = (Inl (SearchFailed (search_failed_msg ''es.exe not found'' ''es.exe not found'')),
        Map.empty, [SDK, ES])
   \<and> search_failed_msg ''es.exe not found'' ''es.exe not found''
       \<noteq> search_failed_msg ''IPC error'' ''es.exe not found''"
  by (simp add: searchFilesWithCache_def resolve_paths_def cache_lookup_def locate_def
      example_world_def search_failed_msg_def)

section \<open>Pagination: the claim C4\<close>

lemma int64_mod: "int64 x = (x + 2 ^ 63) mod 2 ^ 64 - 2 ^ 63"
  by (simp add: int64_def signed_take_bit_eq_take_bit_shift take_bit_eq_mod)

lemma example_lookup:
  "cache_lookup 1 example_cache ''video'' = Some [''a'', ''b'', ''c'', ''d'', ''e'']"
  by (simp add: cache_lookup_def example_cache_def Since_def expiry_value)

lemma example_stat: "Stat example_world p = Inr example_info"
  by (simp add: example_world_def)

lemma example_loop_all:
  "page_loop example_world [''a'', ''b'', ''c'', ''d'', ''e''] 0 5 []
     = Inr (map (\<lambda>p. make_result example_world p example_info) [''a'', ''b'', ''c'', ''d'', ''e''])"
  by (simp add: page_loop.simps example_stat)

lemma example_loop_panic:
  "page_loop example_world [''a'', ''b'', ''c'', ''d'', ''e''] (- 9223372036854775808)
      (- 9223372036854775806) []
     = Inl (IndexOutOfRange (- 9223372036854775808))"
  by (simp add: page_loop.simps)

lemma parse_big_page: "parse_page ''2305843009213693953'' = 2305843009213693953"
  by (simp add: parse_page_def Atoi_def ParseInt_def is_digit_def digits_val_def digit_val_def)

lemma parse_bigger_page: "parse_page ''4611686018427387905'' = 4611686018427387905"
  by (simp add: parse_page_def Atoi_def ParseInt_def is_digit_def digits_val_def digit_val_def)

lemma parse_200: "parse_pageSize ''200'' = 200"
  by (simp add: parse_pageSize_def Atoi_def ParseInt_def is_digit_def digits_val_def
      digit_val_def MaxPageSize_def)

lemma parse_2: "parse_pageSize ''2'' = 2"
  by (simp add: parse_pageSize_def Atoi_def ParseInt_def is_digit_def digits_val_def
      digit_val_def MaxPageSize_def)

lemma paginate_big_page:
  "paginate example_world [''a'', ''b'', ''c'', ''d'', ''e''] 2305843009213693953 200
     = Inr (map (\<lambda>p. make_result example_world p example_info) [''a'', ''b'', ''c'', ''d'', ''e''], 5)"
  by (simp add: paginate_def Let_def int64_mod example_loop_all)

lemma paginate_bigger_page:
  "paginate example_world [''a'', ''b'', ''c'', ''d'', ''e''] 4611686018427387905 2
     = Inl (IndexOutOfRange (- 9223372036854775808))"
  by (simp add: paginate_def Let_def int64_mod example_loop_panic)

lemma window_records_Nil: "window_records W [] = []"
  by (simp add: window_records_def map_filter_simps)

lemma window_records_Cons:
  "window_records W (p # ps) =
     (case Stat W p of
        Inl err \<Rightarrow> window_records W ps
      | Inr info \<Rightarrow> make_result W p info # window_records W ps)"
  by (simp add: window_records_def map_filter_simps split: sum.splits)

lemma window_records_all:
  "\<forall>p \<in> set ps. \<exists>info. Stat W p = Inr info \<Longrightarrow> length (window_records W ps) = length ps"
  by (induction ps) (auto simp: window_records_Nil window_records_Cons)

lemma page_loop_window:
  "0 \<le> i \<Longrightarrow> i \<le> end' \<Longrightarrow> end' \<le> int (length allPaths) \<Longrightarrow>
   page_loop W allPaths i end' results
     = Inr (results @ window_records W (take (nat (end' - i)) (drop (nat i) allPaths)))"
proof (induction W allPaths i end' results rule: page_loop.induct)
  case (1 W allPaths i end' results)
  show ?case
  proof (cases "i < end'")
    case False
    with "1.prems" have z: "end' - i = 0" by simp
    have "page_loop W allPaths i end' results = Inr results"
      using False by (subst page_loop.simps) simp
    then show ?thesis
      by (simp add: z window_records_Nil)
  next
    case True
    with "1.prems" have inb: "\<not> (i < 0 \<or> int (length allPaths) \<le> i)" by simp
    from True "1.prems" have lt: "nat i < length allPaths" by simp
    have suc: "nat (i + 1) = Suc (nat i)"
      using "1.prems" by simp
    have cnt: "nat (end' - i) = Suc (nat (end' - (i + 1)))"
      using True by simp
    have win: "take (nat (end' - i)) (drop (nat i) allPaths)
        = allPaths ! nat i # take (nat (end' - (i + 1))) (drop (nat (i + 1)) allPaths)"
      unfolding cnt suc using lt by (simp add: Cons_nth_drop_Suc [symmetric])
    have p1: "0 \<le> i + 1" and p2: "i + 1 \<le> end'"
      using True "1.prems" by simp_all
    show ?thesis
    proof (cases "Stat W (allPaths ! nat i)")
      case (Inl err)
      from "1.IH"(1) [OF True inb Inl p1 p2 "1.prems"(3)] Inl True inb show ?thesis
        by (simp add: page_loop.simps [of W allPaths i end'] win window_records_Cons)
    next
      case (Inr info)
      from "1.IH"(2) [OF True inb Inr p1 p2 "1.prems"(3)] Inr True inb show ?thesis
        by (simp add: page_loop.simps [of W allPaths i end'] win window_records_Cons)
    qed
  qed
qed

lemma paginate_no_overflow:
  assumes "1 \<le> page" and "1 \<le> pageSize" and "(page - 1) * pageSize + pageSize < 2 ^ 63"
  shows "paginate W allPaths page pageSize
     = Inr (window_records W (take (nat pageSize) (drop (nat ((page - 1) * pageSize)) allPaths)),
            int (length allPaths))"
proof -
  let ?start = "(page - 1) * pageSize"
  let ?n = "int (length allPaths)"
  have s0: "0 \<le> ?start"
    using assms(1,2) by simp
  have pm: "int64 (page - 1) = page - 1"
  proof (rule int64_id)
    show "- (2 ^ 63) \<le> page - 1" using assms(1) by simp
    have "page - 1 \<le> (page - 1) * pageSize"
      using assms(1,2) by (simp add: mult_le_cancel_left1)
    then show "page - 1 < 2 ^ 63" using assms(2,3) by simp
  qed
  have st: "int64 (int64 (page - 1) * pageSize) = ?start"
    unfolding pm using s0 assms(2,3) by (intro int64_id) simp_all
  have en: "int64 (?start + pageSize) = ?start + pageSize"
    using s0 assms(2,3) by (intro int64_id) simp_all
  show ?thesis
  proof (cases "?n = 0")
    case True
    then show ?thesis
      by (simp add: paginate_def window_records_Nil)
  next
    case n0: False
    show ?thesis
    proof (cases "?start < ?n")
      case False
      then have "drop (nat ?start) allPaths = []"
        by simp
      then show ?thesis
        using n0 False by (simp add: paginate_def Let_def st en window_records_Nil)
    next
      case True
      define end' where "end' = (if ?start + pageSize > ?n then ?n else ?start + pageSize)"
      have b1: "?start \<le> end'" and b2: "end' \<le> ?n"
        using True assms(2) by (simp_all add: end'_def)
      have tk: "take (nat (end' - ?start)) (drop (nat ?start) allPaths)
          = take (nat pageSize) (drop (nat ?start) allPaths)"
      proof (cases "?start + pageSize > ?n")
        case True
        then have "length (drop (nat ?start) allPaths) \<le> nat pageSize"
          using s0 by simp
        moreover from True have "length (drop (nat ?start) allPaths) \<le> nat (end' - ?start)"
          using s0 by (simp add: end'_def)
        ultimately show ?thesis by simp
      next
        case False
        then show ?thesis by (simp add: end'_def)
      qed
      have "page_loop W allPaths ?start end' []
          = Inr ([] @ window_records W (take (nat (end' - ?start)) (drop (nat ?start) allPaths)))"
        using s0 b1 b2 by (rule page_loop_window)
      then have "page_loop W allPaths ?start end' []
          = Inr (window_records W (take (nat pageSize) (drop (nat ?start) allPaths)))"
        by (simp add: tk)
      moreover have "paginate W allPaths page pageSize
          = (case page_loop W allPaths ?start end' [] of
               Inl e \<Rightarrow> Inl e
             | Inr results \<Rightarrow> Inr (results, ?n))"
        unfolding paginate_def Let_def st en end'_def using n0 True
        by (simp split del: if_split)
      ultimately show ?thesis
        by simp
    qed
  qed
qed

lemma totalPages_ceiling:
  assumes "0 \<le> totalCount" and "1 \<le> pageSize" and "totalCount + pageSize < 2 ^ 63"
  shows "(quo (int64 (int64 (totalCount + pageSize) - 1)) pageSize - 1) * pageSize < totalCount
    \<and> totalCount \<le> quo (int64 (int64 (totalCount + pageSize) - 1)) pageSize * pageSize"
proof -
  have a: "int64 (totalCount + pageSize) = totalCount + pageSize"
    using assms by (intro int64_id) simp_all
  have b: "int64 (totalCount + pageSize - 1) = totalCount + pageSize - 1"
    using assms by (intro int64_id) simp_all
  have q: "quo (totalCount + pageSize - 1) pageSize = (totalCount + pageSize - 1) div pageSize"
    using assms by (simp add: quo_def sgn_if)
  define t where "t = (totalCount + pageSize - 1) div pageSize"
  have m: "(totalCount + pageSize - 1) = t * pageSize + (totalCount + pageSize - 1) mod pageSize"
    by (simp add: t_def)
  have r0: "0 \<le> (totalCount + pageSize - 1) mod pageSize"
    and r1: "(totalCount + pageSize - 1) mod pageSize < pageSize"
    using assms(2) by simp_all
  have "(t - 1) * pageSize < totalCount \<and> totalCount \<le> t * pageSize"
    using m r0 r1 by (simp add: algebra_simps)
  then show ?thesis
    unfolding a b q t_def .
qed

text \<open>
  Claim C4 asks for an empty page, and no error, when \<open>page\<close> lies beyond \<open>totalPages\<close>.
  \<open>(page - 1) * pageSize\<close> is computed in 64 bits.  With five cached paths,
  \<open>page = 2^61 + 1\<close> and \<open>pageSize = 200\<close> the product wraps to 0 and the reply holds the
  five records of page 1, with \<open>totalPages = 1\<close>; with \<open>page = 2^62 + 1\<close> and
  \<open>pageSize = 2\<close> it wraps to \<open>-2^63\<close> and \<open>allPaths[i]\<close> panics.  Without the overflow the
  window is the one of the claim (\<open>paginate_no_overflow\<close>, \<open>totalPages_ceiling\<close>).
\<close>

theorem page_number_overflow:
  "fst (apiSearchHandler example_world example_cache 1 1 ''video'' ''2305843009213693953'' ''200'')
     = Served \<lparr>Results = map (\<lambda>p. make_result example_world p example_info)
                            [''a'', ''b'', ''c'', ''d'', ''e''],
               Count = 5, TotalCount = 5, Query = ''video'', Page = 2305843009213693953,
               PageSize = 200, TotalPages = 1\<rparr>
   \<and> fst (apiSearchHandler example_world example_cache 1 1 ''video'' ''4611686018427387905'' ''2'')
     = Panicked (IndexOutOfRange (- 9223372036854775808))"
  by (simp add: apiSearchHandler_def searchFilesWithCache_def resolve_paths_def example_lookup
      parse_big_page parse_bigger_page parse_200 parse_2 paginate_big_page paginate_bigger_page
      Let_def int64_mod quo_def)

section \<open>ffmpeg and the path of a request: the claims C8 and C10\<close>

lemma hex_20: "byte 32 = CHR '' ''"
  by (simp add: byte_def)

lemma hex_25: "byte 37 = CHR ''%''"
  by (simp add: byte_def)

lemma unescape_1: "QueryUnescape ''C:/a%2520b.mp4'' = Some ''C:/a%20b.mp4''"
  by (simp add: ishex_def unhex_def hex_25)

lemma unescape_2: "QueryUnescape ''C:/a%20b.mp4'' = Some ''C:/a b.mp4''"
  by (simp add: ishex_def unhex_def hex_20)

lemma unescape_3: "QueryUnescape ''C:/a b.mp4'' = Some ''C:/a b.mp4''"
  by simp

lemma unescape_loop_three: "unescape_loop 0 s = three_passes s"
  by (simp add: unescape_loop.simps three_passes_def split: option.splits)

lemma transcodeHandler_unavailable:
  "transcodeHandler W False w urlPath = (Error w ffmpeg_unavailable_msg 503, [], False)"
  by (simp add: transcodeHandler_def)

lemma serve_transcodes_unavailable:
  "serve_transcodes W False urlPaths
     = (map (\<lambda>urlPath. Error NewResponseWriter ffmpeg_unavailable_msg 503) urlPaths, [], False)"
  by (induction urlPaths) (simp_all add: transcodeHandler_unavailable)

lemma transcode_available_example:
  "transcodeHandler example_world True NewResponseWriter ''/transcode/b.mkv''
     = (copy_stdout ''mp4 bytes''
          (Header_Set ''Cache-Control'' ''no-cache''
            (Header_Set ''Accept-Ranges'' ''bytes''
              (Header_Set ''Content-Type'' ''video/mp4'' NewResponseWriter))),
        [ffmpeg_args ''b.mkv''], True)"
  by (simp add: transcodeHandler_def transcodeHandler_filePath_def decode_path_def
      unescape_loop.simps ReplaceAll_def example_world_def Let_def)

lemma ffmpeg_args_not_probe: "ffmpeg_args filePath \<noteq> [''ffmpeg'', ''-version'']"
  by (simp add: ffmpeg_args_def)

lemma transcodeHandler_flag:
  "snd (snd (transcodeHandler W ffmpegAvailable w urlPath)) = ffmpegAvailable
   \<and> [''ffmpeg'', ''-version''] \<notin> set (fst (snd (transcodeHandler W ffmpegAvailable w urlPath)))"
  using ffmpeg_args_not_probe [of "transcodeHandler_filePath urlPath"]
  by (auto simp: transcodeHandler_def Let_def)

lemma serve_transcodes_flag:
  "snd (snd (serve_transcodes W ffmpegAvailable urlPaths)) = ffmpegAvailable
   \<and> [''ffmpeg'', ''-version''] \<notin> set (fst (snd (serve_transcodes W ffmpegAvailable urlPaths)))"
proof (induction urlPaths arbitrary: ffmpegAvailable)
  case Nil
  show ?case by simp
next
  case (Cons urlPath rest)
  obtain w started flag where h: "transcodeHandler W ffmpegAvailable NewResponseWriter urlPath
      = (w, started, flag)"
    by (cases "transcodeHandler W ffmpegAvailable NewResponseWriter urlPath") auto
  obtain ws started' flag' where r: "serve_transcodes W flag rest = (ws, started', flag')"
    by (cases "serve_transcodes W flag rest") auto
  from transcodeHandler_flag [of W ffmpegAvailable NewResponseWriter urlPath] h
  have f: "flag = ffmpegAvailable" and n: "[''ffmpeg'', ''-version''] \<notin> set started"
    by simp_all
  from Cons.IH [of flag] r
  have f': "flag' = flag" and n': "[''ffmpeg'', ''-version''] \<notin> set started'"
    by simp_all
  show ?case
    using h r f f' n n' by simp
qed

text \<open>
  Claim C8.  \<open>ffmpegAvailable\<close> is what the probe of \<open>main\<close> found, before and after any
  sequence of requests for \<open>/transcode/\<dots>\<close>: no request changes it, and no request
  starts \<open>ffmpeg -version\<close>.  When the probe did not succeed, every request is answered
  with 503 and the requests start no process at all: the only process of the run is the
  probe itself, if it was started.
\<close>

theorem transcode_unavailable:
  "snd (snd (main_transcodes W p urlPaths)) = (p = ProbeOk)
   \<and> snd (snd (serve_transcodes W ffmpegAvailable urlPaths)) = ffmpegAvailable
   \<and> [''ffmpeg'', ''-version''] \<notin> set (fst (snd (serve_transcodes W ffmpegAvailable urlPaths)))
   \<and> (p \<noteq> ProbeOk \<longrightarrow>
        list_all (\<lambda>w. status w = 503) (fst (main_transcodes W p urlPaths))
        \<and> length (fst (main_transcodes W p urlPaths)) = length urlPaths
        \<and> fst (snd (main_transcodes W p urlPaths))
            = (if p = ProbeNotStarted then [] else [[''ffmpeg'', ''-version'']])
        \<and> fst (snd (serve_transcodes W False urlPaths)) = [])"
proof -
  obtain ws started flag where r:
    "serve_transcodes W (fst (checkFFmpegAvailability p)) urlPaths = (ws, started, flag)"
    by (cases "serve_transcodes W (fst (checkFFmpegAvailability p)) urlPaths") auto
  from serve_transcodes_flag [of W "fst (checkFFmpegAvailability p)" urlPaths] r
  have "flag = fst (checkFFmpegAvailability p)"
    by simp
  then have a: "snd (snd (main_transcodes W p urlPaths)) = (p = ProbeOk)"
    using r by (auto simp: main_transcodes_def checkFFmpegAvailability_def split: prod.splits)
  have b: "p \<noteq> ProbeOk \<Longrightarrow>
        list_all (\<lambda>w. status w = 503) (fst (main_transcodes W p urlPaths))
        \<and> length (fst (main_transcodes W p urlPaths)) = length urlPaths
        \<and> fst (snd (main_transcodes W p urlPaths))
            = (if p = ProbeNotStarted then [] else [[''ffmpeg'', ''-version'']])
        \<and> fst (snd (serve_transcodes W False urlPaths)) = []"
    by (simp add: main_transcodes_def checkFFmpegAvailability_def serve_transcodes_unavailable
        list_all_iff Error_status)
  show ?thesis
    using a b serve_transcodes_flag [of W ffmpegAvailable urlPaths] by blast
qed

text \<open>Two requests after a probe that found no ffmpeg, and after a probe that ran and
  failed.\<close>

theorem transcode_unavailable_witness:
  "list_all (\<lambda>w. status w = 503)
     (fst (main_transcodes example_world ProbeNotStarted
        [''/transcode/C%3A/a.avi'', ''/transcode/b.mkv'']))
   \<and> length (fst (main_transcodes example_world ProbeNotStarted
        [''/transcode/C%3A/a.avi'', ''/transcode/b.mkv''])) = 2
   \<and> fst (snd (main_transcodes example_world ProbeNotStarted
        [''/transcode/C%3A/a.avi'', ''/transcode/b.mkv''])) = []
   \<and> fst (snd (main_transcodes example_world ProbeExitError
        [''/transcode/C%3A/a.avi'', ''/transcode/b.mkv''])) = [[''ffmpeg'', ''-version'']]
   \<and> snd (snd (main_transcodes example_world ProbeNotStarted
        [''/transcode/C%3A/a.avi'', ''/transcode/b.mkv''])) = False"
  using transcode_unavailable [of example_world ProbeNotStarted
      "[''/transcode/C%3A/a.avi'', ''/transcode/b.mkv'']" False]
    transcode_unavailable [of example_world ProbeExitError
      "[''/transcode/C%3A/a.avi'', ''/transcode/b.mkv'']" False]
  by (simp del: serve_transcodes.simps)

text \<open>
  Claim C10.  The three handlers take the suffix of the URL path, percent-decode it three
  times (stopping at the first pass that fails) and replace every \<open>/\<close> by a backslash.
  For the suffix \<open>C:/a%2520b.mp4\<close> the file name of the path is \<open>a b.mp4\<close>, where one
  decoding gives \<open>a%20b.mp4\<close>.
\<close>

theorem path_decoded_three_times:
  "fileHandler_filePath urlPath = ReplaceAll (three_passes (drop 6 urlPath)) (CHR ''/'') (CHR 0x5C)
   \<and> streamHandler_filePath urlPath
       = ReplaceAll (three_passes (drop 8 urlPath)) (CHR ''/'') (CHR 0x5C)
   \<and> transcodeHandler_filePath urlPath
       = ReplaceAll (three_passes (drop 11 urlPath)) (CHR ''/'') (CHR 0x5C)
   \<and> streamHandler_filePath ''/stream/C:/a%2520b.mp4'' = ''C:'' @ [CHR 0x5C] @ ''a b.mp4''
   \<and> map_option (\<lambda>p. ReplaceAll p (CHR ''/'') (CHR 0x5C)) (QueryUnescape ''C:/a%2520b.mp4'')
       = Some (''C:'' @ [CHR 0x5C] @ ''a%20b.mp4'')
   \<and> Some (streamHandler_filePath ''/stream/C:/a%2520b.mp4'')
       \<noteq> map_option (\<lambda>p. ReplaceAll p (CHR ''/'') (CHR 0x5C)) (QueryUnescape ''C:/a%2520b.mp4'')"
proof -
  have a: "three_passes ''C:/a%2520b.mp4'' = ''C:/a b.mp4''"
    by (simp only: three_passes_def unescape_1 unescape_2 unescape_3 option.case)
  have d: "drop 8 ''/stream/C:/a%2520b.mp4'' = ''C:/a%2520b.mp4''"
    by simp
  have r1: "ReplaceAll ''C:/a b.mp4'' (CHR ''/'') (CHR 0x5C) = ''C:'' @ [CHR 0x5C] @ ''a b.mp4''"
    by (simp add: ReplaceAll_def)
  have r2: "ReplaceAll ''C:/a%20b.mp4'' (CHR ''/'') (CHR 0x5C) = ''C:'' @ [CHR 0x5C] @ ''a%20b.mp4''"
    by (simp add: ReplaceAll_def)
  have g1: "fileHandler_filePath urlPath
      = ReplaceAll (three_passes (drop 6 urlPath)) (CHR ''/'') (CHR 0x5C)"
    by (simp only: fileHandler_filePath_def decode_path_def unescape_loop_three)
  have g2: "\<And>u. streamHandler_filePath u
      = ReplaceAll (three_passes (drop 8 u)) (CHR ''/'') (CHR 0x5C)"
    by (simp only: streamHandler_filePath_def decode_path_def unescape_loop_three)
  have g3: "transcodeHandler_filePath urlPath
      = ReplaceAll (three_passes (drop 11 urlPath)) (CHR ''/'') (CHR 0x5C)"
    by (simp only: transcodeHandler_filePath_def decode_path_def unescape_loop_three)
  have b: "streamHandler_filePath ''/stream/C:/a%2520b.mp4'' = ''C:'' @ [CHR 0x5C] @ ''a b.mp4''"
    by (simp only: g2 d a r1)
  have c: "map_option (\<lambda>p. ReplaceAll p (CHR ''/'') (CHR 0x5C)) (QueryUnescape ''C:/a%2520b.mp4'')
      = Some (''C:'' @ [CHR 0x5C] @ ''a%20b.mp4'')"
    by (simp only: unescape_1 option.map r2)
  have ne: "Some (streamHandler_filePath ''/stream/C:/a%2520b.mp4'')
      \<noteq> map_option (\<lambda>p. ReplaceAll p (CHR ''/'') (CHR 0x5C)) (QueryUnescape ''C:/a%2520b.mp4'')"
    unfolding b c by simp
  show ?thesis
    by (intro conjI g1 g2 g3 b c ne)
qed

end
